theory Spec2Isabelle
  imports Complex_Main
begin

section \<open>Exceptions\<close>

text \<open>
  The Python exception classes that the modelled methods raise or catch. A constructor
  stands for the class together with its subclasses (an \<open>except ValueError\<close> clause also
  catches every subclass of \<open>ValueError\<close>); the string is the message.
  \<open>OtherException\<close> is any exception that is none of the named classes.
\<close>

datatype error =
    AttributeError
  | ValueError string
  | TypeError string
  | NotImplementedError string
  | ZeroDivisionError
  | OtherException

section \<open>Subcrystals (sage/combinat/crystals/subcrystal.py)\<close>

text \<open>
  The ambient crystal is a parameter: its elements have type \<open>'x\<close>, its index set type
  \<open>'i\<close>, and \<open>ambient_e\<close>, \<open>ambient_f\<close> are the operators \<open>x.e(i)\<close>, \<open>x.f(i)\<close> of the
  ambient elements, with Python's \<open>None\<close> as \<open>None\<close>.

  \<open>_contained\<close> is \<open>None\<close>, a frozenset or a function.
\<close>

datatype 'x contained =
    ContainedNone
  | ContainedFrozenset "'x set"
  | ContainedFunction "'x \<Rightarrow> bool"

record ('x, 'i) Subcrystal =
  ambient_e :: "'x \<Rightarrow> 'i \<Rightarrow> 'x option"
  ambient_f :: "'x \<Rightarrow> 'i \<Rightarrow> 'x option"
  contained :: "'x contained"

text \<open>\<open>Subcrystal.Element\<close> is an \<open>ElementWrapper\<close>: a parent and the wrapped value.\<close>

record ('x, 'i) Element =
  parent :: "('x, 'i) Subcrystal"
  val :: "'x"

text \<open>\<open>Subcrystal._containing\<close>\<close>

definition containing :: "('x, 'i) Subcrystal \<Rightarrow> 'x \<Rightarrow> bool" where
  "containing S x =
     (case contained S of
        ContainedNone \<Rightarrow> True
      | ContainedFrozenset A \<Rightarrow> x \<in> A
      | ContainedFunction p \<Rightarrow> p x)"

text \<open>\<open>Subcrystal.Element.e\<close> and \<open>Subcrystal.Element.f\<close>\<close>

definition Element_e :: "('x, 'i) Element \<Rightarrow> 'i \<Rightarrow> ('x, 'i) Element option" where
  "Element_e self i =
     (let ret = ambient_e (parent self) (val self) i in
      case ret of
        None \<Rightarrow> None
      | Some y \<Rightarrow>
          if \<not> containing (parent self) y then None
          else Some \<lparr>parent = parent self, val = y\<rparr>)"

definition Element_f :: "('x, 'i) Element \<Rightarrow> 'i \<Rightarrow> ('x, 'i) Element option" where
  "Element_f self i =
     (let ret = ambient_f (parent self) (val self) i in
      case ret of
        None \<Rightarrow> None
      | Some y \<Rightarrow>
          if \<not> containing (parent self) y then None
          else Some \<lparr>parent = parent self, val = y\<rparr>)"

text \<open>
  A concrete subcrystal for evaluation: the ambient crystal is the chain
  \<open>0 \<rightarrow> 1 \<rightarrow> 2 \<rightarrow> 3\<close> with one index, \<open>f\<close> going up and \<open>e\<close> going down; the subcrystal
  keeps the elements below 3, given by a function.
\<close>

definition chain_e :: "nat \<Rightarrow> unit \<Rightarrow> nat option" where
  "chain_e x i = (if x = 0 then None else Some (x - 1))"

definition chain_f :: "nat \<Rightarrow> unit \<Rightarrow> nat option" where
  "chain_f x i = (if 3 \<le> x then None else Some (x + 1))"

definition chain_sub :: "(nat, unit) Subcrystal" where
  "chain_sub = \<lparr>ambient_e = chain_e, ambient_f = chain_f,
                 contained = ContainedFunction (\<lambda>x. x < 3)\<rparr>"

section \<open>Homsets of Drinfeld modules (sage/rings/function_field/drinfeld_modules/homset.py)\<close>

text \<open>
  \<open>self(x)\<close> goes through \<open>_element_constructor_\<close> to \<open>DrinfeldModuleMorphism(self, x)\<close>,
  whose class is not part of the sources at hand. The homset therefore carries the
  outcome of that call as a parameter: the morphism built, or the exception raised.
\<close>

record ('x, 'm) DrinfeldModuleHomset =
  element_constructor :: "'x \<Rightarrow> error + 'm"

text \<open>The classes named by \<open>except (AttributeError, ValueError, TypeError)\<close>.\<close>

fun caught :: "error \<Rightarrow> bool" where
  "caught AttributeError = True"
| "caught (ValueError s) = True"
| "caught (TypeError s) = True"
| "caught (NotImplementedError s) = False"
| "caught ZeroDivisionError = False"
| "caught OtherException = False"

text \<open>\<open>DrinfeldModuleHomset.__contains__\<close>: an exception that is not caught propagates.\<close>

definition homset_contains :: "('x, 'm) DrinfeldModuleHomset \<Rightarrow> 'x \<Rightarrow> error + bool" where
  "homset_contains self x =
     (case element_constructor self x of
        Inr m \<Rightarrow> Inr True
      | Inl err \<Rightarrow> if caught err then Inr False else Inl err)"

text \<open>
  A concrete homset for evaluation: candidates are integers, a morphism is built from a
  positive even number, an odd number is rejected with \<open>ValueError\<close>, a negative one
  with \<open>TypeError\<close>, and the construction from zero fails with a \<open>ZeroDivisionError\<close>.
\<close>

definition parity_hom :: "(int, int) DrinfeldModuleHomset" where
  "parity_hom =
     \<lparr>element_constructor =
        (\<lambda>x. if x = 0 then Inl ZeroDivisionError
             else if x < 0 then Inl (TypeError ''negative'')
             else if odd x then Inl (ValueError ''the Ore polynomial does not define a morphism'')
             else Inr x)\<rparr>"

section \<open>Compositions modulo m (sage/geometry/polyhedron/generating_function.py)\<close>

text \<open>
  An element of \<open>Zmod(m)\<close> is the pair of its modulus and its residue in \<open>0..m-1\<close>;
  \<open>Zmod m x\<close> is the conversion \<open>Zmod(m)(x)\<close>, \<open>modulus\<close> is \<open>a.modulus()\<close>, \<open>lift\<close> is
  \<open>ZZ(a)\<close> and \<open>order\<close> is the additive order \<open>a.order()\<close>, that is
  \<open>m // gcd(lift, m)\<close>.
\<close>

type_synonym IntegerMod = "int \<times> int"

definition Zmod :: "int \<Rightarrow> int \<Rightarrow> IntegerMod" where
  "Zmod m x = (m, x mod m)"

definition modulus :: "IntegerMod \<Rightarrow> int" where
  "modulus a = fst a"

definition lift :: "IntegerMod \<Rightarrow> int" where
  "lift a = snd a"

definition order :: "IntegerMod \<Rightarrow> int" where
  "order a = modulus a div gcd (lift a) (modulus a)"

text \<open>Subtraction and multiplication by an integer in \<open>Zmod(m)\<close>, for \<open>r - j*v\<close>.\<close>

definition mod_sub :: "IntegerMod \<Rightarrow> IntegerMod \<Rightarrow> IntegerMod" where
  "mod_sub a b = Zmod (modulus a) (lift a - lift b)"

definition mod_scale :: "int \<Rightarrow> IntegerMod \<Rightarrow> IntegerMod" where
  "mod_scale j v = Zmod (modulus v) (j * lift v)"

text \<open>\<open>srange(m)\<close>: the integers \<open>0, \<dots>, m - 1\<close>.\<close>

definition srange :: "int \<Rightarrow> int list" where
  "srange m = [0..m - 1]"

text \<open>
  \<open>_compositions_mod_(u, r)\<close>, the generator, as the list of what it yields in order.
  In the call made by \<open>compositions_mod\<close> with \<open>multidimensional=False\<close> every vector
  is built as \<open>vector([Z(uu)])\<close> and has exactly one entry; a vector is represented by
  that entry, so \<open>max(vv.order() for vv in v)\<close> is the order of the entry and
  \<open>all(rr == 0 for rr in r)\<close> is \<open>r = 0\<close>.
\<close>

fun compositions_mod_rec :: "IntegerMod list \<Rightarrow> IntegerMod \<Rightarrow> IntegerMod list list" where
  "compositions_mod_rec [] r = (if lift r = 0 then [[]] else [])"
| "compositions_mod_rec (v # u) r =
     (let m = order v in
      concat (map (\<lambda>j. map (\<lambda>a. Zmod m j # a)
                            (compositions_mod_rec u (mod_sub r (mod_scale j v))))
                  (srange m)))"

text \<open>\<open>compositions_mod(u, m, r)\<close> with \<open>multidimensional=False\<close>.\<close>

definition compositions_mod :: "int list \<Rightarrow> int \<Rightarrow> int \<Rightarrow> IntegerMod list list" where
  "compositions_mod u m r = compositions_mod_rec (map (Zmod m) u) (Zmod m r)"

text \<open>The dot product \<open>a u\<^sup>T\<close> of a yielded tuple with the coefficients, over the integers.\<close>

definition dot :: "IntegerMod list \<Rightarrow> int list \<Rightarrow> int" where
  "dot a u = sum_list (map2 (\<lambda>x y. lift x * y) a u)"

text \<open>
  The tuples that solve the congruence with the \<open>i\<close>-th entry a residue modulo the
  additive order \<open>m / gcd(u\<^sub>i, m)\<close> of \<open>u\<^sub>i\<close> in \<open>Z/mZ\<close>.
\<close>

definition solution :: "int \<Rightarrow> int list \<Rightarrow> int \<Rightarrow> IntegerMod list \<Rightarrow> bool" where
  "solution m u r a \<longleftrightarrow>
     list_all2 (\<lambda>x uu. modulus x = m div gcd uu m \<and> 0 \<le> lift x \<and> lift x < m div gcd uu m) a u
     \<and> dot a u mod m = r mod m"

section \<open>Fusion rings of Drinfeld doubles (sage/algebras/fusion_rings/fusion_double.py)\<close>

text \<open>
  The finite group \<open>G\<close> comes from the computer-algebra system; the model takes what
  the code asks of it: the iteration \<open>for g in G\<close> (\<open>elements\<close>), the product \<open>a*b\<close>,
  \<open>g.inverse()\<close>, \<open>G.one()\<close>, \<open>G.conjugacy_classes_representatives()\<close>,
  \<open>G.centralizer(g).irreducible_characters()\<close> as a function of \<open>g\<close>, with characters
  as complex-valued functions, and \<open>G.exponent()\<close>.
\<close>

record 'g FiniteGroup =
  elements :: "'g list"
  mult :: "'g \<Rightarrow> 'g \<Rightarrow> 'g"
  inverse_of :: "'g \<Rightarrow> 'g"
  identity :: "'g"
  conjugacy_classes_representatives :: "'g list"
  irreducible_characters :: "'g \<Rightarrow> ('g \<Rightarrow> complex) list"
  exponent :: nat

text \<open>\<open>G.order()\<close> and the elements of \<open>G.centralizer(a)\<close>.\<close>

definition order_of :: "'g FiniteGroup \<Rightarrow> nat" where
  "order_of G = length (elements G)"

definition centralizer :: "'g FiniteGroup \<Rightarrow> 'g \<Rightarrow> 'g list" where
  "centralizer G a = filter (\<lambda>g. mult G g a = mult G a g) (elements G)"

text \<open>
  The attributes of a \<open>FusionDouble\<close> that the modelled methods read. The dictionaries
  \<open>_elt\<close> and \<open>_chi\<close> have the keys \<open>0, \<dots>, _rank - 1\<close> and are kept as lists; a basis
  element is identified with its key (\<open>support_of_term()\<close>). Elements of cyclotomic
  fields are complex numbers, under the standard embedding.
\<close>

record 'g FusionDouble =
  self_G :: "'g FiniteGroup"
  self_elt :: "'g list"
  self_chi :: "('g \<Rightarrow> complex) list"
  self_rank :: nat
  self_cyclotomic_order :: nat
  self_basecoer :: "(complex \<Rightarrow> complex) option"

text \<open>\<open>FusionDouble.__init__\<close>\<close>

definition FusionDouble_init :: "'g FiniteGroup \<Rightarrow> 'g FusionDouble" where
  "FusionDouble_init G =
     \<lparr>self_G = G,
      self_elt = concat (map (\<lambda>g. map (\<lambda>chi. g) (irreducible_characters G g))
                             (conjugacy_classes_representatives G)),
      self_chi = concat (map (\<lambda>g. irreducible_characters G g)
                             (conjugacy_classes_representatives G)),
      self_rank = length (concat (map (\<lambda>g. irreducible_characters G g)
                                      (conjugacy_classes_representatives G))),
      self_cyclotomic_order = exponent G,
      self_basecoer = None\<rparr>"

text \<open>\<open>basis()\<close> (its keys), \<open>get_order()\<close> and \<open>one()\<close>, which is \<open>basis()[0]\<close>.\<close>

definition basis :: "'g FusionDouble \<Rightarrow> nat list" where
  "basis self = [0..<self_rank self]"

definition get_order :: "'g FusionDouble \<Rightarrow> nat list" where
  "get_order self = basis self"


text \<open>
  The common ending of the methods:
  \<open>if (not base_coercion) or (self._basecoer is None): return ret\<close>,
  \<open>return self._basecoer(ret)\<close>.
\<close>

definition coerce :: "'g FusionDouble \<Rightarrow> bool \<Rightarrow> complex \<Rightarrow> complex" where
  "coerce self base_coercion ret =
     (if \<not> base_coercion \<or> self_basecoer self = None then ret
      else the (self_basecoer self) ret)"

text \<open>\<open>FusionDouble.s_ij\<close>\<close>

definition s_ij :: "'g FusionDouble \<Rightarrow> nat \<Rightarrow> nat \<Rightarrow> bool \<Rightarrow> bool \<Rightarrow> complex" where
  "s_ij self i j unitary base_coercion =
     (let G = self_G self;
          a = self_elt self ! i; chi_1 = self_chi self ! i;
          b = self_elt self ! j; chi_2 = self_chi self ! j;
          sum = (\<Sum>g\<leftarrow>filter (\<lambda>g. mult G (mult G (mult G a g) b) (inverse_of G g)
                                    = mult G (mult G (mult G g b) (inverse_of G g)) a)
                           (elements G).
                   chi_1 (mult G (mult G g b) (inverse_of G g))
                   * chi_2 (mult G (mult G (inverse_of G g) a) g));
          coef = (if unitary
                  then 1 / of_nat (length (centralizer G a) * length (centralizer G b))
                  else of_nat (order_of G)
                       / of_nat (length (centralizer G a) * length (centralizer G b)));
          ret = coef * sum
      in coerce self base_coercion ret)"

text \<open>\<open>FusionDouble.total_q_order\<close> and \<open>FusionDouble.global_q_dimension\<close>\<close>

definition total_q_order :: "'g FusionDouble \<Rightarrow> bool \<Rightarrow> complex" where
  "total_q_order self base_coercion =
     (let ret = of_nat (order_of (self_G self)) in coerce self base_coercion ret)"


text \<open>
  \<open>FusionDouble.s_matrix\<close>: the matrix as the list of its rows; the row index is the
  outer variable \<open>y\<close>.
\<close>

definition s_matrix :: "'g FusionDouble \<Rightarrow> bool \<Rightarrow> bool \<Rightarrow> complex list list" where
  "s_matrix self unitary base_coercion =
     (let S = map (\<lambda>y. map (\<lambda>x. s_ij self x y unitary base_coercion) (get_order self))
                  (get_order self)
      in if unitary then map (map (\<lambda>z. z / total_q_order self True)) S else S)"


text \<open>
  \<open>CyclotomicField(N).gen()\<close> is the primitive root of unity \<open>exp(2 \<pi> i / N)\<close>; \<open>field()\<close>
  is \<open>CyclotomicField(4 * self._cyclotomic_order)\<close>, represented by its order.
\<close>

definition CyclotomicField_gen :: "nat \<Rightarrow> complex" where
  "CyclotomicField_gen N = cis (2 * pi / of_nat N)"

definition FusionDouble_field :: "'g FusionDouble \<Rightarrow> nat" where
  "FusionDouble_field self = 4 * self_cyclotomic_order self"

text \<open>
  \<open>FusionDouble.root_of_unity\<close>. The rational \<open>n\<close> is in \<open>ZZ\<close> when it equals its floor.
\<close>

definition root_of_unity :: "'g FusionDouble \<Rightarrow> rat \<Rightarrow> bool \<Rightarrow> error + complex" where
  "root_of_unity self r base_coercion =
     (let n = 2 * r * of_nat (self_cyclotomic_order self) in
      if of_int \<lfloor>n\<rfloor> \<noteq> n then Inl (ValueError ''not a root of unity in the field'')
      else
        let ret = CyclotomicField_gen (FusionDouble_field self) powi \<lfloor>n\<rfloor>
        in Inr (coerce self base_coercion ret))"

text \<open>
  Matrix product, entrywise conjugation (\<open>S.conjugate()\<close>) and the identity matrix, on
  lists of rows.
\<close>

definition matrix_mult :: "complex list list \<Rightarrow> complex list list \<Rightarrow> complex list list" where
  "matrix_mult A B =
     map (\<lambda>row. map (\<lambda>col. \<Sum>(x, y)\<leftarrow>zip row col. x * y) (transpose B)) A"

definition matrix_conjugate :: "complex list list \<Rightarrow> complex list list" where
  "matrix_conjugate A = map (map cnj) A"

definition identity_matrix :: "nat \<Rightarrow> complex list list" where
  "identity_matrix n = map (\<lambda>i. map (\<lambda>j. if i = j then 1 else 0) [0..<n]) [0..<n]"

text \<open>
  The cyclic group of order two, \<open>CyclicPermutationGroup(2)\<close>, with \<open>False\<close> the identity:
  both centralizers are the whole group, whose irreducible characters the library
  lists as the sign character followed by the trivial character.
\<close>

definition C2_trivial :: "bool \<Rightarrow> complex" where
  "C2_trivial g = 1"

definition C2_sign :: "bool \<Rightarrow> complex" where
  "C2_sign g = (if g then - 1 else 1)"

definition C2 :: "bool FiniteGroup" where
  "C2 = \<lparr>elements = [False, True],
         mult = (\<lambda>a b. a \<noteq> b),
         inverse_of = (\<lambda>a. a),
         identity = False,
         conjugacy_classes_representatives = [False, True],
         irreducible_characters = (\<lambda>g. [C2_sign, C2_trivial]),
         exponent = 2\<rparr>"








section \<open>Finite Drinfeld modules (sage/rings/function_field/drinfeld_modules/finite_drinfeld_module.py)\<close>

text \<open>
  The attributes and the algebra a \<open>FiniteDrinfeldModule\<close> uses, as a record: \<open>rank\<close> is
  the value of \<open>self.rank()\<close>, \<open>gen i\<close> the coefficient \<open>self._gen[i]\<close> in the base ring
  (type \<open>'k\<close>), \<open>degree_over_Fq\<close> the degree of the base ring over \<open>Fq\<close>, \<open>characteristic\<close>
  and \<open>characteristic_degree\<close> are \<open>self.characteristic()\<close> and its degree (elements of
  the function ring and its fraction field have type \<open>'a\<close>), \<open>norm_over_Fq\<close> is
  \<open>self._base_ring.over(self._Fq)(delta).norm()\<close>, \<open>ore_variable_power n\<close> is \<open>t**n\<close>
  (Ore polynomials have type \<open>'o\<close>), \<open>Hom_call\<close> is \<open>self._Hom_(self, category=...)(...)\<close>
  (morphisms have type \<open>'m\<close>), \<open>call\<close> is \<open>self(B)\<close>, \<open>ore_add\<close> and \<open>ore_floordiv\<close> are
  \<open>+\<close> and \<open>//\<close> on Ore polynomials, \<open>invert\<close> is \<open>self.invert\<close>, \<open>divides a b\<close> is
  \<open>a.divides(b)\<close>. These calls into the algebra system are total functions of the
  model. The two caches \<open>_frobenius_norm\<close> and \<open>_frobenius_trace\<close> are the mutable
  state; a method returns its value together with the updated module.
\<close>

record ('k, 'a, 'o, 'm) FiniteDrinfeldModule =
  rank :: nat
  gen :: "nat \<Rightarrow> 'k"
  degree_over_Fq :: nat
  characteristic :: "'a"
  characteristic_degree :: nat
  norm_over_Fq :: "'k \<Rightarrow> 'a"
  ore_variable_power :: "nat \<Rightarrow> 'o"
  Hom_call :: "'o \<Rightarrow> 'm"
  call :: "'a \<Rightarrow> 'o"
  ore_add :: "'o \<Rightarrow> 'o \<Rightarrow> 'o"
  ore_floordiv :: "'o \<Rightarrow> 'o \<Rightarrow> 'o"
  invert :: "'o \<Rightarrow> 'a"
  divides :: "'a \<Rightarrow> 'a \<Rightarrow> bool"
  frobenius_norm_cache :: "'a option"
  frobenius_trace_cache :: "'a option"

text \<open>
  Modelled from the spec: \<open>DrinfeldModule._check_rank_two\<close>, which the methods below
  call, is defined in the class \<open>DrinfeldModule\<close> and is not among the sources. By the
  specification the precondition violation "rank must be two" is surfaced as an
  immediate failure, and by the docstrings of the methods that call it the failure
  is a \<open>NotImplementedError\<close> raised if the rank is not two.
\<close>

definition check_rank_two :: "('k, 'a, 'o, 'm) FiniteDrinfeldModule \<Rightarrow> error + unit" where
  "check_rank_two self =
     (if rank self \<noteq> 2 then Inl (NotImplementedError ''rank must be two'') else Inr ())"

text \<open>\<open>FiniteDrinfeldModule.frobenius_endomorphism\<close>\<close>

definition frobenius_endomorphism ::
  "('k, 'a, 'o, 'm) FiniteDrinfeldModule \<Rightarrow> error + 'm" where
  "frobenius_endomorphism self =
     (let deg = degree_over_Fq self in
      Inr (Hom_call self (ore_variable_power self deg)))"

text \<open>
  \<open>FiniteDrinfeldModule.frobenius_norm\<close>. The two divisions raise \<open>ZeroDivisionError\<close>
  on a zero divisor.
\<close>

definition frobenius_norm ::
  "('k, 'a::field, 'o, 'm) FiniteDrinfeldModule
     \<Rightarrow> error + ('a \<times> ('k, 'a, 'o, 'm) FiniteDrinfeldModule)" where
  "frobenius_norm self =
     (case check_rank_two self of
        Inl err \<Rightarrow> Inl err
      | Inr _ \<Rightarrow>
          (case frobenius_norm_cache self of
             Some B \<Rightarrow> Inr (B, self)
           | None \<Rightarrow>
               let n = degree_over_Fq self;
                   d = characteristic_degree self
               in if d = 0 then Inl ZeroDivisionError
                  else
                    let m = n div d;
                        delta = gen self 2;
                        norm = norm_over_Fq self delta
                    in if norm = 0 then Inl ZeroDivisionError
                       else
                         let B = ((- 1) ^ n) * (characteristic self ^ m) / norm
                         in Inr (B, self\<lparr>frobenius_norm_cache := Some B\<rparr>)))"

text \<open>\<open>FiniteDrinfeldModule.frobenius_trace\<close>\<close>

definition frobenius_trace ::
  "('k, 'a::field, 'o, 'm) FiniteDrinfeldModule
     \<Rightarrow> error + ('a \<times> ('k, 'a, 'o, 'm) FiniteDrinfeldModule)" where
  "frobenius_trace self =
     (case check_rank_two self of
        Inl err \<Rightarrow> Inl err
      | Inr _ \<Rightarrow>
          (case frobenius_trace_cache self of
             Some A \<Rightarrow> Inr (A, self)
           | None \<Rightarrow>
               let n = degree_over_Fq self in
               (case frobenius_norm self of
                  Inl err \<Rightarrow> Inl err
                | Inr (B, self') \<Rightarrow>
                    let t_n = ore_variable_power self' n;
                        A = invert self' (ore_add self' t_n (ore_floordiv self' (call self' B) t_n))
                    in Inr (A, self'\<lparr>frobenius_trace_cache := Some A\<rparr>))))"

text \<open>
  \<open>FiniteDrinfeldModule.frobenius_charpoly\<close>: the polynomial \<open>S([norm, -trace, 1])\<close> as
  its list of coefficients.
\<close>

definition frobenius_charpoly ::
  "('k, 'a::field, 'o, 'm) FiniteDrinfeldModule
     \<Rightarrow> error + ('a list \<times> ('k, 'a, 'o, 'm) FiniteDrinfeldModule)" where
  "frobenius_charpoly self =
     (case check_rank_two self of
        Inl err \<Rightarrow> Inl err
      | Inr _ \<Rightarrow>
          (case frobenius_norm self of
             Inl err \<Rightarrow> Inl err
           | Inr (B, self') \<Rightarrow>
               (case frobenius_trace self' of
                  Inl err \<Rightarrow> Inl err
                | Inr (A, self'') \<Rightarrow> Inr ([B, - A, 1], self''))))"

text \<open>\<open>FiniteDrinfeldModule.is_supersingular\<close> and \<open>FiniteDrinfeldModule.is_ordinary\<close>\<close>

definition is_supersingular ::
  "('k, 'a::field, 'o, 'm) FiniteDrinfeldModule
     \<Rightarrow> error + (bool \<times> ('k, 'a, 'o, 'm) FiniteDrinfeldModule)" where
  "is_supersingular self =
     (case check_rank_two self of
        Inl err \<Rightarrow> Inl err
      | Inr _ \<Rightarrow>
          (case frobenius_trace self of
             Inl err \<Rightarrow> Inl err
           | Inr (A, self') \<Rightarrow> Inr (divides self' (characteristic self') A, self')))"

definition is_ordinary ::
  "('k, 'a::field, 'o, 'm) FiniteDrinfeldModule
     \<Rightarrow> error + (bool \<times> ('k, 'a, 'o, 'm) FiniteDrinfeldModule)" where
  "is_ordinary self =
     (case check_rank_two self of
        Inl err \<Rightarrow> Inl err
      | Inr _ \<Rightarrow>
          (case is_supersingular self of
             Inl err \<Rightarrow> Inl err
           | Inr (b, self') \<Rightarrow> Inr (\<not> b, self')))"

text \<open>
  A Drinfeld module has a characteristic of positive degree and, in rank two, a
  nonzero leading coefficient \<open>self._gen[2]\<close>, whose norm is then nonzero.
\<close>

definition wellformed :: "('k, 'a::field, 'o, 'm) FiniteDrinfeldModule \<Rightarrow> bool" where
  "wellformed self \<longleftrightarrow>
     0 < characteristic_degree self \<and> norm_over_Fq self (gen self 2) \<noteq> 0"

text \<open>
  A module of rank \<open>r\<close> with generator \<open>1 + t**r\<close> over a quadratic extension, on a small
  stand-in for the algebra (the Ore polynomial \<open>t**n\<close> is the number \<open>n\<close>, a morphism is
  its Ore polynomial), to run the methods on.
\<close>

definition example_module :: "nat \<Rightarrow> (int, rat, nat, nat) FiniteDrinfeldModule" where
  "example_module r =
     \<lparr>rank = r,
      gen = (\<lambda>i. if i = 0 \<or> i = r then 1 else 0),
      degree_over_Fq = 2,
      characteristic = 3,
      characteristic_degree = 1,
      norm_over_Fq = (\<lambda>x. of_int (x * x)),
      ore_variable_power = (\<lambda>n. n),
      Hom_call = (\<lambda>p. p),
      call = (\<lambda>a. 0),
      ore_add = (\<lambda>p q. p + q),
      ore_floordiv = (\<lambda>p q. p - q),
      invert = (\<lambda>p. of_nat p),
      divides = (\<lambda>a b. a = b),
      frobenius_norm_cache = None,
      frobenius_trace_cache = None\<rparr>"

section \<open>Rings of Drinfeld modular forms (sage/modular/drinfeld_modform/ring.py)\<close>

text \<open>
  An element of the base field \<open>Frac(Fq[T])\<close> is given by its numerator and its
  denominator, polynomials over the constants \<open>'c\<close> as coefficient lists (constant
  term first, no trailing zeros); \<open>degree\<close> of the zero polynomial is \<open>-1\<close>.
\<close>

record 'c FractionFieldElement =
  numerator :: "'c list"
  denominator :: "'c list"

definition is_one :: "'c::one list \<Rightarrow> bool" where
  "is_one p \<longleftrightarrow> p = [1]"

definition degree :: "'c list \<Rightarrow> int" where
  "degree p = int (length p) - 1"

text \<open>
  A ring of Drinfeld modular forms: \<open>_rank\<close>, \<open>_has_type\<close>, the cardinality \<open>q\<close> of the
  constants, and the algebra it calls: \<open>base_ring_call\<close> is the conversion
  \<open>self._base_ring(a)\<close> of an arbitrary input (type \<open>'x\<close>), which returns an element or
  raises; \<open>ring_gen n\<close> is \<open>self.gen(n)\<close> and \<open>form_power\<close> is \<open>**\<close> on forms (type \<open>'f\<close>).
  The Ore polynomials over \<open>K[g1, ..., gr]\<close> are a type \<open>'o\<close> of the class of rings, with
  its \<open>0\<close> (the start value of \<open>sum\<close>), \<open>+\<close>, \<open>*\<close> and \<open>^\<close>; \<open>ore_constant c\<close> is the constant
  \<open>c\<close> as an Ore polynomial, which \<open>c*(gen**idx)\<close> multiplies with; \<open>ore_gen\<close> is the Ore
  polynomial \<open>ore_pol_ring([T, g1, ..., gr])\<close>, \<open>ore_coefficient f i\<close> is \<open>f[i]\<close> (type \<open>'p\<close>)
  and \<open>subs form g\<close> is \<open>form.subs({g_j: g(j)})\<close>.
\<close>

record ('x, 'c, 'o, 'p, 'f) DrinfeldModularForms =
  modform_rank :: int
  modform_has_type :: bool
  base_ring_cardinality :: nat
  base_ring_call :: "'x \<Rightarrow> error + 'c FractionFieldElement"
  ring_gen :: "int \<Rightarrow> 'f"
  form_power :: "'f \<Rightarrow> nat \<Rightarrow> 'f"
  ore_constant :: "'c \<Rightarrow> 'o"
  ore_gen :: "'o"
  ore_coefficient :: "'o \<Rightarrow> int \<Rightarrow> 'p"
  subs :: "'p \<Rightarrow> (nat \<Rightarrow> 'f) \<Rightarrow> 'f"

text \<open>\<open>DrinfeldModularForms._generator_coefficient_form\<close>\<close>

definition generator_coefficient_form ::
  "('x, 'c, 'o, 'p, 'f) DrinfeldModularForms \<Rightarrow> int \<Rightarrow> 'f" where
  "generator_coefficient_form self i =
     (if modform_has_type self \<and> i = modform_rank self
      then let q = base_ring_cardinality self in form_power self (ring_gen self (i - 1)) (q - 1)
      else ring_gen self (i - 1))"

text \<open>
  The Ore polynomial \<open>f = sum(c*(gen**idx) for idx, c in enumerate(a.coefficients()))\<close>
  of \<open>_coefficient_forms\<close>: the universal Drinfeld module at \<open>a\<close>.
\<close>

definition universal_module_at ::
  "('x, 'c, 'o::ring_1, 'p, 'f) DrinfeldModularForms \<Rightarrow> 'c list \<Rightarrow> 'o" where
  "universal_module_at self a =
     foldl (\<lambda>acc (idx, c). acc + ore_constant self c * ore_gen self ^ idx)
           0 (enumerate 0 a)"

text \<open>\<open>DrinfeldModularForms._coefficient_forms\<close>\<close>

definition coefficient_forms_internal ::
  "('x, 'c, 'o::ring_1, 'p, 'f) DrinfeldModularForms \<Rightarrow> 'c list \<Rightarrow> 'f list" where
  "coefficient_forms_internal self a =
     (let f = universal_module_at self a in
      map (\<lambda>i. subs self (ore_coefficient self f i)
                     (\<lambda>j. generator_coefficient_form self (int j + 1)))
          [1..degree a * modform_rank self])"

text \<open>
  \<open>DrinfeldModularForms.coefficient_form\<close>, with \<open>i\<close> already an integer. The messages
  of the two index errors are kept without the numbers that the source formats into
  them.
\<close>

definition coefficient_form ::
  "('x, 'c::one, 'o::ring_1, 'p, 'f) DrinfeldModularForms \<Rightarrow> int \<Rightarrow> 'x option \<Rightarrow> error + 'f" where
  "coefficient_form self i a =
     (case a of
        None \<Rightarrow>
          if i < 1 \<or> i > modform_rank self
          then Inl (ValueError ''index must be >= 1 and <= rank'')
          else Inr (generator_coefficient_form self i)
      | Some x \<Rightarrow>
          (case base_ring_call self x of
             Inl (TypeError s) \<Rightarrow> Inl (TypeError ''a should be an element of the base ring'')
           | Inl err \<Rightarrow> Inl err
           | Inr a' \<Rightarrow>
               if \<not> is_one (denominator a')
               then Inl (ValueError ''a should be in the ring of regular functions'')
               else
                 let a'' = numerator a' in
                 if i < 1 \<or> i > degree a'' * modform_rank self
                 then Inl (ValueError ''index must be >= 1 and <= deg(a)*rank'')
                 else
                   let coeff_forms = coefficient_forms_internal self a''
                   in Inr (coeff_forms ! nat (i - 1))))"

text \<open>\<open>DrinfeldModularForms.coefficient_forms\<close>\<close>

definition coefficient_forms ::
  "('x, 'c::one, 'o::ring_1, 'p, 'f) DrinfeldModularForms \<Rightarrow> 'x option \<Rightarrow> error + 'f list" where
  "coefficient_forms self a =
     (case a of
        None \<Rightarrow> Inr (map (generator_coefficient_form self) [1..modform_rank self])
      | Some x \<Rightarrow>
          (case base_ring_call self x of
             Inl (TypeError s) \<Rightarrow> Inl (TypeError ''the input should be an element of the base ring'')
           | Inl err \<Rightarrow> Inl err
           | Inr a' \<Rightarrow>
               if \<not> is_one (denominator a')
               then Inl (ValueError ''the input should be in the ring of regular functions'')
               else Inr (coefficient_forms_internal self (numerator a'))))"

text \<open>
  What the universal Drinfeld module is, independently of the code: the homomorphism
  of \<open>F\<^sub>q\<close>-algebras from \<open>F\<^sub>q[T]\<close> to the Ore polynomials that maps \<open>T\<close> to
  \<open>T + g\<^sub>1 t + \<dots> + g\<^sub>r t\<^sup>r\<close>. At \<open>a = c + T p\<close> it is \<open>c\<close> plus its value at \<open>p\<close> times its
  value at \<open>T\<close>.
\<close>

fun universal_drinfeld_module ::
  "('x, 'c, 'o::ring_1, 'p, 'f) DrinfeldModularForms \<Rightarrow> 'c list \<Rightarrow> 'o" where
  "universal_drinfeld_module M [] = 0"
| "universal_drinfeld_module M (c # p)
     = ore_constant M c + universal_drinfeld_module M p * ore_gen M"

text \<open>
  Sum and product in \<open>F\<^sub>q[T]\<close> on coefficient lists, and what makes \<open>ore_constant\<close> the
  embedding of the constants: it respects \<open>0\<close>, \<open>1\<close>, \<open>+\<close> and \<open>*\<close>, and a constant commutes
  with \<open>ore_gen\<close> (the Frobenius endomorphism fixes \<open>F\<^sub>q\<close>).
\<close>

fun poly_add :: "'c::comm_ring_1 list \<Rightarrow> 'c list \<Rightarrow> 'c list" where
  "poly_add [] q = q"
| "poly_add (a # p) [] = a # p"
| "poly_add (a # p) (b # q) = (a + b) # poly_add p q"

fun poly_mult :: "'c::comm_ring_1 list \<Rightarrow> 'c list \<Rightarrow> 'c list" where
  "poly_mult [] q = []"
| "poly_mult (a # p) q = poly_add (map (\<lambda>b. a * b) q) (0 # poly_mult p q)"

definition is_constant_embedding ::
  "('x, 'c::comm_ring_1, 'o::ring_1, 'p, 'f) DrinfeldModularForms \<Rightarrow> bool" where
  "is_constant_embedding M \<longleftrightarrow>
     ore_constant M 0 = 0
     \<and> ore_constant M 1 = 1
     \<and> (\<forall>c d. ore_constant M (c + d) = ore_constant M c + ore_constant M d)
     \<and> (\<forall>c d. ore_constant M (c * d) = ore_constant M c * ore_constant M d)
     \<and> (\<forall>c. ore_constant M c * ore_gen M = ore_gen M * ore_constant M c)"

text \<open>
  A ring of rank two over a small stand-in for the algebra, to run the methods on: an
  Ore polynomial is the integer that is its value at \<open>T = 0\<close>, \<open>g\<^sub>i = 1\<close> and \<open>t = 10\<close>, so
  that \<open>ore_gen\<close> is \<open>110\<close> and a coefficient is a decimal digit; inputs are already
  elements of the base field.
\<close>

definition example_forms ::
  "(int FractionFieldElement, int, int, int, int) DrinfeldModularForms" where
  "example_forms =
     \<lparr>modform_rank = 2,
      modform_has_type = False,
      base_ring_cardinality = 3,
      base_ring_call = (\<lambda>x. Inr x),
      ring_gen = (\<lambda>n. n),
      form_power = (\<lambda>f k. f ^ k),
      ore_constant = (\<lambda>c. c),
      ore_gen = 110,
      ore_coefficient = (\<lambda>p i. p div 10 ^ nat i mod 10),
      subs = (\<lambda>p g. p)\<rparr>"

section \<open>Theorems\<close>

subsection \<open>Subcrystals\<close>

lemma Element_e_None_iff:
  "Element_e x i = None \<longleftrightarrow>
     (ambient_e (parent x) (val x) i = None \<or>
      (\<exists>y. ambient_e (parent x) (val x) i = Some y \<and> \<not> containing (parent x) y))"
  by (cases "ambient_e (parent x) (val x) i") (simp_all add: Element_e_def)

lemma Element_f_None_iff:
  "Element_f x i = None \<longleftrightarrow>
     (ambient_f (parent x) (val x) i = None \<or>
      (\<exists>y. ambient_f (parent x) (val x) i = Some y \<and> \<not> containing (parent x) y))"
  by (cases "ambient_f (parent x) (val x) i") (simp_all add: Element_f_def)

lemma Element_e_Some:
  "ambient_e (parent x) (val x) i = Some y \<Longrightarrow> containing (parent x) y \<Longrightarrow>
     Element_e x i = Some \<lparr>parent = parent x, val = y\<rparr>"
  by (simp add: Element_e_def)

lemma Element_f_Some:
  "ambient_f (parent x) (val x) i = Some y \<Longrightarrow> containing (parent x) y \<Longrightarrow>
     Element_f x i = Some \<lparr>parent = parent x, val = y\<rparr>"
  by (simp add: Element_f_def)

lemma Element_e_closed:
  "Element_e x i = Some z \<Longrightarrow> parent z = parent x \<and> containing (parent x) (val z)"
  by (cases "ambient_e (parent x) (val x) i") (auto simp add: Element_e_def split: if_splits)

lemma Element_f_closed:
  "Element_f x i = Some z \<Longrightarrow> parent z = parent x \<and> containing (parent x) (val z)"
  by (cases "ambient_f (parent x) (val x) i") (auto simp add: Element_f_def split: if_splits)

text \<open>
  Claim C9. For a subcrystal element \<open>x\<close> with parent \<open>S\<close> and an index \<open>i\<close>, \<open>x.e(i)\<close> is
  \<open>None\<close> exactly when the ambient operator on the wrapped value is \<open>None\<close> or gives a
  value that \<open>S._containing\<close> rejects; otherwise it is the ambient result wrapped with
  parent \<open>S\<close>. The same holds for \<open>x.f(i)\<close>. Hence whatever \<open>e\<close> and \<open>f\<close> return is again an
  element of \<open>S\<close>: its parent is \<open>S\<close> and its value satisfies \<open>S._containing\<close>.
\<close>

theorem subcrystal_operators_closed:
  fixes x :: "('x, 'i) Element"
  shows
    "(Element_e x i = None \<longleftrightarrow>
        (ambient_e (parent x) (val x) i = None \<or>
         (\<exists>y. ambient_e (parent x) (val x) i = Some y \<and> \<not> containing (parent x) y)))
     \<and> (\<forall>y. ambient_e (parent x) (val x) i = Some y \<and> containing (parent x) y \<longrightarrow>
            Element_e x i = Some \<lparr>parent = parent x, val = y\<rparr>)
     \<and> (Element_f x i = None \<longleftrightarrow>
        (ambient_f (parent x) (val x) i = None \<or>
         (\<exists>y. ambient_f (parent x) (val x) i = Some y \<and> \<not> containing (parent x) y)))
     \<and> (\<forall>y. ambient_f (parent x) (val x) i = Some y \<and> containing (parent x) y \<longrightarrow>
            Element_f x i = Some \<lparr>parent = parent x, val = y\<rparr>)
     \<and> (\<forall>z. Element_e x i = Some z \<or> Element_f x i = Some z \<longrightarrow>
            parent z = parent x \<and> containing (parent x) (val z))"
proof -
  have e_none: "Element_e x i = None \<longleftrightarrow>
        (ambient_e (parent x) (val x) i = None \<or>
         (\<exists>y. ambient_e (parent x) (val x) i = Some y \<and> \<not> containing (parent x) y))"
    by (rule Element_e_None_iff)
  have e_some: "\<forall>y. ambient_e (parent x) (val x) i = Some y \<and> containing (parent x) y \<longrightarrow>
            Element_e x i = Some \<lparr>parent = parent x, val = y\<rparr>"
    by (simp add: Element_e_Some)
  have f_none: "Element_f x i = None \<longleftrightarrow>
        (ambient_f (parent x) (val x) i = None \<or>
         (\<exists>y. ambient_f (parent x) (val x) i = Some y \<and> \<not> containing (parent x) y))"
    by (rule Element_f_None_iff)
  have f_some: "\<forall>y. ambient_f (parent x) (val x) i = Some y \<and> containing (parent x) y \<longrightarrow>
            Element_f x i = Some \<lparr>parent = parent x, val = y\<rparr>"
    by (simp add: Element_f_Some)
  have closed: "\<forall>z. Element_e x i = Some z \<or> Element_f x i = Some z \<longrightarrow>
            parent z = parent x \<and> containing (parent x) (val z)"
  proof (intro allI impI)
    fix z assume "Element_e x i = Some z \<or> Element_f x i = Some z"
    then show "parent z = parent x \<and> containing (parent x) (val z)"
    proof
      assume "Element_e x i = Some z"
      then show ?thesis by (rule Element_e_closed)
    next
      assume "Element_f x i = Some z"
      then show ?thesis by (rule Element_f_closed)
    qed
  qed
  from e_none e_some f_none f_some closed show ?thesis
    by (intro conjI)
qed

theorem subcrystal_operators_closed_witness:
  "Element_f \<lparr>parent = chain_sub, val = 1\<rparr> () = Some \<lparr>parent = chain_sub, val = 2\<rparr>
   \<and> Element_f \<lparr>parent = chain_sub, val = 2\<rparr> () = None
   \<and> Element_e \<lparr>parent = chain_sub, val = 0\<rparr> () = None
   \<and> containing chain_sub 2 \<and> \<not> containing chain_sub 3"
proof -
  have amb: "ambient_f chain_sub 1 () = Some 2" "ambient_f chain_sub 2 () = Some 3"
    "ambient_e chain_sub 0 () = None"
    by (simp_all add: chain_sub_def chain_e_def chain_f_def)
  have cont: "containing chain_sub 2" "\<not> containing chain_sub 3"
    by (simp_all add: chain_sub_def containing_def)
  have "Element_f \<lparr>parent = chain_sub, val = 1\<rparr> () = Some \<lparr>parent = chain_sub, val = 2\<rparr>"
    using subcrystal_operators_closed [of "\<lparr>parent = chain_sub, val = 1\<rparr>" "()"] amb cont
    by simp
  moreover have "Element_f \<lparr>parent = chain_sub, val = 2\<rparr> () = None"
    using subcrystal_operators_closed [of "\<lparr>parent = chain_sub, val = 2\<rparr>" "()"] amb cont
    by simp
  moreover have "Element_e \<lparr>parent = chain_sub, val = 0\<rparr> () = None"
    using subcrystal_operators_closed [of "\<lparr>parent = chain_sub, val = 0\<rparr>" "()"] amb
    by simp
  ultimately show ?thesis
    using cont by simp
qed

subsection \<open>Homset membership\<close>

text \<open>
  Claim C10, amended. \<open>x in H\<close> is \<open>True\<close> exactly when \<open>H(x)\<close> builds a morphism and
  \<open>False\<close> exactly when that construction raises an \<open>AttributeError\<close>, a \<open>ValueError\<close>
  or a \<open>TypeError\<close>; none of these three exceptions ever leaves the membership test.
  An exception of any other class raised by the construction is not caught: it leaves
  the membership test, which then returns no boolean. So a boolean is returned exactly
  when the construction succeeds or raises one of the three classes.
\<close>

theorem homset_contains_try_except:
  fixes H :: "('x, 'm) DrinfeldModuleHomset"
  shows
    "(homset_contains H x = Inr True \<longleftrightarrow> (\<exists>m. element_constructor H x = Inr m))
     \<and> (homset_contains H x = Inr False \<longleftrightarrow>
          (\<exists>err. element_constructor H x = Inl err \<and> caught err))
     \<and> ((\<exists>b. homset_contains H x = Inr b) \<longleftrightarrow>
          ((\<exists>m. element_constructor H x = Inr m) \<or>
           (\<exists>err. element_constructor H x = Inl err \<and> caught err)))
     \<and> (\<forall>err. homset_contains H x = Inl err \<longleftrightarrow>
          (element_constructor H x = Inl err \<and> \<not> caught err))
     \<and> homset_contains H x \<noteq> Inl AttributeError
     \<and> (\<forall>s. homset_contains H x \<noteq> Inl (ValueError s))
     \<and> (\<forall>s. homset_contains H x \<noteq> Inl (TypeError s))"
proof (cases "element_constructor H x")
  case (Inl err)
  then show ?thesis
    by (cases "caught err") (auto simp add: homset_contains_def)
next
  case (Inr m)
  then show ?thesis
    by (auto simp add: homset_contains_def)
qed

theorem homset_contains_try_except_witness:
  "homset_contains parity_hom 4 = Inr True
   \<and> homset_contains parity_hom 3 = Inr False
   \<and> homset_contains parity_hom (- 2) = Inr False
   \<and> homset_contains parity_hom 0 = Inl ZeroDivisionError"
proof -
  have c: "element_constructor parity_hom 4 = Inr 4"
    "element_constructor parity_hom 3 =
       Inl (ValueError ''the Ore polynomial does not define a morphism'')"
    "element_constructor parity_hom (- 2) = Inl (TypeError ''negative'')"
    "element_constructor parity_hom 0 = Inl ZeroDivisionError"
    by (simp_all add: parity_hom_def)
  show ?thesis
    using homset_contains_try_except [of parity_hom 4]
          homset_contains_try_except [of parity_hom 3]
          homset_contains_try_except [of parity_hom "- 2"]
          homset_contains_try_except [of parity_hom 0] c
    by simp
qed

text \<open>
  Claim C10, as stated, says that the membership test always returns a boolean. When
  the construction raises an exception outside the three classes, here a
  \<open>ZeroDivisionError\<close>, the exception leaves the membership test and neither \<open>True\<close> nor
  \<open>False\<close> is returned.
\<close>

theorem homset_contains_counterexample:
  "element_constructor parity_hom 0 = Inl ZeroDivisionError
   \<and> homset_contains parity_hom 0 = Inl ZeroDivisionError
   \<and> homset_contains parity_hom 0 \<noteq> Inr True
   \<and> homset_contains parity_hom 0 \<noteq> Inr False"
  by (simp add: parity_hom_def homset_contains_def)

subsection \<open>Compositions modulo m\<close>

lemma order_Zmod: "order (Zmod m x) = m div gcd x m"
  using gcd_red_int [of x m]
  by (simp add: order_def Zmod_def modulus_def lift_def gcd.commute [of "x mod m" m])

lemma mod_sub_scale: "mod_sub (Zmod m r) (mod_scale j (Zmod m x)) = Zmod m (r - j * x)"
  by (simp add: mod_sub_def mod_scale_def Zmod_def modulus_def lift_def mod_diff_eq mod_mult_right_eq)

lemma Zmod_small: "0 \<le> j \<Longrightarrow> j < m \<Longrightarrow> Zmod m j = (m, j)"
  by (simp add: Zmod_def)

lemma compositions_mod_rec_Cons:
  "compositions_mod_rec (map (Zmod m) (x # u)) (Zmod m r) =
     concat (map (\<lambda>j. map (\<lambda>a. (m div gcd x m, j) # a)
                            (compositions_mod_rec (map (Zmod m) u) (Zmod m (r - j * x))))
                 [0..m div gcd x m - 1])"
proof -
  have "compositions_mod_rec (map (Zmod m) (x # u)) (Zmod m r) =
     concat (map (\<lambda>j. map (\<lambda>a. Zmod (m div gcd x m) j # a)
                            (compositions_mod_rec (map (Zmod m) u) (Zmod m (r - j * x))))
                 [0..m div gcd x m - 1])"
    by (simp add: Let_def order_Zmod mod_sub_scale srange_def)
  also have "\<dots> =
     concat (map (\<lambda>j. map (\<lambda>a. (m div gcd x m, j) # a)
                            (compositions_mod_rec (map (Zmod m) u) (Zmod m (r - j * x))))
                 [0..m div gcd x m - 1])"
    by (rule arg_cong [where f = concat], rule map_cong) (simp_all add: Zmod_small)
  finally show ?thesis .
qed

lemma congruence_shift:
  fixes m :: int
  shows "d mod m = (r - j * x) mod m \<longleftrightarrow> (j * x + d) mod m = r mod m"
proof -
  have "d - (r - j * x) = (j * x + d) - r" by simp
  then show ?thesis by (simp only: mod_eq_dvd_iff)
qed

lemma solution_Nil: "solution m [] r a \<longleftrightarrow> a = [] \<and> r mod m = 0"
  by (auto simp add: solution_def dot_def)

lemma solution_Cons:
  "solution m (x # u) r a \<longleftrightarrow>
     (\<exists>j a'. a = (m div gcd x m, j) # a' \<and> 0 \<le> j \<and> j < m div gcd x m \<and>
              solution m u (r - j * x) a')"
proof (cases a)
  case Nil
  then show ?thesis by (simp add: solution_def)
next
  case (Cons y a')
  obtain k j where y: "y = (k, j)" by (cases y)
  have "dot (y # a') (x # u) = j * x + dot a' u"
    by (simp add: dot_def y lift_def)
  then show ?thesis
    using congruence_shift [of "dot a' u" m r j x]
    by (auto simp add: Cons y solution_def modulus_def lift_def)
qed

lemma set_compositions_mod_rec:
  "0 < m \<Longrightarrow> set (compositions_mod_rec (map (Zmod m) u) (Zmod m r)) = {a. solution m u r a}"
proof (induction u arbitrary: r)
  case Nil
  then show ?case
    by (auto simp add: solution_Nil Zmod_def lift_def)
next
  case (Cons x u)
  show ?case
    unfolding compositions_mod_rec_Cons
    by (auto simp add: Cons.IH [OF Cons.prems] solution_Cons)
qed

lemma distinct_concat_map_Cons:
  "distinct js \<Longrightarrow> (\<And>j. j \<in> set js \<Longrightarrow> distinct (g j)) \<Longrightarrow>
     distinct (concat (map (\<lambda>j. map (\<lambda>a. (k, j) # a) (g j)) js))"
  by (induction js) (auto simp add: distinct_map inj_on_def)

lemma distinct_compositions_mod_rec:
  "distinct (compositions_mod_rec (map (Zmod m) u) (Zmod m r))"
proof (induction u arbitrary: r)
  case Nil
  then show ?case by simp
next
  case (Cons x u)
  show ?case
    unfolding compositions_mod_rec_Cons
    by (rule distinct_concat_map_Cons) (simp_all add: Cons.IH)
qed

text \<open>
  Claim C8, amended. For a positive modulus \<open>m\<close>, \<open>compositions_mod(u, m, r)\<close> yields,
  each exactly once, exactly the tuples \<open>a\<close> with one entry per entry of \<open>u\<close>, the \<open>i\<close>-th
  entry an element of \<open>Z/m\<^sub>iZ\<close> where \<open>m\<^sub>i = m / gcd(u\<^sub>i, m)\<close> is the additive order of
  \<open>u\<^sub>i\<close> in \<open>Z/mZ\<close>, such that the dot product of the residues with \<open>u\<close> is congruent to
  \<open>r\<close> modulo \<open>m\<close>.
\<close>

theorem compositions_mod_solutions:
  "0 < m \<Longrightarrow>
     distinct (compositions_mod u m r) \<and>
     set (compositions_mod u m r) =
       {a. list_all2 (\<lambda>x uu. modulus x = m div gcd uu m \<and> 0 \<le> lift x \<and> lift x < m div gcd uu m) a u
           \<and> dot a u mod m = r mod m}"
  using set_compositions_mod_rec [of m u r] distinct_compositions_mod_rec [of m u r]
  by (simp add: compositions_mod_def solution_def)

theorem compositions_mod_solutions_witness:
  "(0::int) < 6 \<and> distinct (compositions_mod [1, 2, 3] 6 0)
   \<and> [(6, 4), (3, 1), (2, 0)] \<in> set (compositions_mod [1, 2, 3] 6 0)
   \<and> [(6, 4), (3, 1), (2, 1)] \<notin> set (compositions_mod [1, 2, 3] 6 0)"
  using compositions_mod_solutions [of 6 "[1, 2, 3]" 0]
  by (simp add: dot_def modulus_def lift_def)

text \<open>
  Claim C8, as stated: the tuples yielded are exactly the tuples of elements of \<open>Z/mZ\<close>
  whose dot product with \<open>u\<close> is congruent to \<open>r\<close> modulo \<open>m\<close>. For \<open>u = (1, 0)\<close>, \<open>m = 2\<close>,
  \<open>r = 0\<close> the tuple \<open>(0, 1)\<close> of elements of \<open>Z/2Z\<close> solves the congruence, but the only
  tuple yielded is \<open>(0, 0)\<close>, whose second entry lives in \<open>Z/1Z\<close>.
\<close>

theorem compositions_mod_counterexample:
  "dot [Zmod 2 0, Zmod 2 1] [1, 0] mod 2 = 0 mod 2
   \<and> [Zmod 2 0, Zmod 2 1] \<notin> set (compositions_mod [1, 0] 2 0)
   \<and> [0, 1] \<notin> set (map (map lift) (compositions_mod [1, 0] 2 0))
   \<and> compositions_mod [1, 0] 2 0 = [[Zmod 2 0, Zmod 1 0]]"
proof -
  have c: "compositions_mod [1, 0] 2 0 = [[(2, 0), (1, 0)]]"
    by (simp add: compositions_mod_def Zmod_def order_def modulus_def lift_def mod_sub_def
        mod_scale_def srange_def upto.simps)
  show ?thesis
    unfolding c by (simp add: dot_def Zmod_def lift_def)
qed

subsection \<open>Finite groups: orbits and classes\<close>































subsection \<open>The fusion double of the cyclic group of order two\<close>

lemma C2_init: "FusionDouble_init C2 =
   \<lparr>self_G = C2, self_elt = [False, False, True, True],
    self_chi = [C2_sign, C2_trivial, C2_sign, C2_trivial],
    self_rank = 4, self_cyclotomic_order = 2, self_basecoer = None\<rparr>"
  by (simp add: FusionDouble_init_def C2_def)

lemma C2_centralizer: "length (centralizer C2 a) = 2"
  by (cases a) (simp_all add: centralizer_def C2_def)

lemma upt4: "[0..<4] = [0, 1, 2, 3]"
  by (simp add: upt_rec)

lemma C2_s_ij_values:
  "s_ij (FusionDouble_init C2) 0 0 True True = 1/2"
  "s_ij (FusionDouble_init C2) 1 0 True True = 1/2"
  "s_ij (FusionDouble_init C2) 2 0 True True = - (1/2)"
  "s_ij (FusionDouble_init C2) 3 0 True True = - (1/2)"
  "s_ij (FusionDouble_init C2) 0 1 True True = 1/2"
  "s_ij (FusionDouble_init C2) 1 1 True True = 1/2"
  "s_ij (FusionDouble_init C2) 2 1 True True = 1/2"
  "s_ij (FusionDouble_init C2) 3 1 True True = 1/2"
  "s_ij (FusionDouble_init C2) 0 2 True True = - (1/2)"
  "s_ij (FusionDouble_init C2) 1 2 True True = 1/2"
  "s_ij (FusionDouble_init C2) 2 2 True True = 1/2"
  "s_ij (FusionDouble_init C2) 3 2 True True = - (1/2)"
  "s_ij (FusionDouble_init C2) 0 3 True True = - (1/2)"
  "s_ij (FusionDouble_init C2) 1 3 True True = 1/2"
  "s_ij (FusionDouble_init C2) 2 3 True True = - (1/2)"
  "s_ij (FusionDouble_init C2) 3 3 True True = 1/2"
  by (simp_all add: s_ij_def Let_def coerce_def C2_centralizer C2_init)
     (simp_all add: C2_def C2_trivial_def C2_sign_def)

lemma C2_s_matrix:
  "s_matrix (FusionDouble_init C2) True True =
     [[1/4, 1/4, - (1/4), - (1/4)],
      [1/4, 1/4, 1/4, 1/4],
      [- (1/4), 1/4, 1/4, - (1/4)],
      [- (1/4), 1/4, - (1/4), 1/4]]"
proof -
  have r: "self_rank (FusionDouble_init C2) = 4" "order_of (self_G (FusionDouble_init C2)) = 2"
    "self_basecoer (FusionDouble_init C2) = None"
    by (simp_all add: C2_init order_of_def) (simp add: C2_def)
  have "s_matrix (FusionDouble_init C2) True True =
     map (map (\<lambda>z. z / 2))
       (map (\<lambda>y. map (\<lambda>x. s_ij (FusionDouble_init C2) x y True True) [0, 1, 2, 3]) [0, 1, 2, 3])"
    unfolding s_matrix_def Let_def get_order_def basis_def total_q_order_def coerce_def r upt4
    by simp
  also have "map (\<lambda>y. map (\<lambda>x. s_ij (FusionDouble_init C2) x y True True) [0, 1, 2, 3]) [0, 1, 2, 3]
     = [[1/2, 1/2, - (1/2), - (1/2)], [1/2, 1/2, 1/2, 1/2], [- (1/2), 1/2, 1/2, - (1/2)], [- (1/2), 1/2, - (1/2), 1/2]]"
    by (simp only: list.map C2_s_ij_values)
  finally show ?thesis
    by simp
qed

subsection \<open>Roots of unity, quantum dimensions and the S-matrix\<close>

lemma integral_iff: "of_int \<lfloor>n\<rfloor> = n \<longleftrightarrow> n \<in> \<int>" for n :: rat
  by (auto elim: Ints_cases)

lemma gen_power:
  assumes n: "2 * r * of_nat e \<in> \<int>" and e: "0 < e"
  shows "CyclotomicField_gen (4 * e) powi \<lfloor>2 * r * of_nat e\<rfloor> = cis (pi * of_rat r)"
proof -
  from n obtain k :: int where k: "2 * r * of_nat e = of_int k"
    by (rule Ints_cases)
  have "(of_rat (2 * r * of_nat e) :: real) = of_rat (of_int k)"
    by (simp only: k)
  then have "2 * of_rat r * of_nat e = real_of_int k"
    by (simp add: of_rat_mult)
  moreover have "\<lfloor>2 * r * of_nat e\<rfloor> = k"
    by (simp only: k floor_of_int)
  ultimately have fl: "real_of_int \<lfloor>2 * r * of_nat e\<rfloor> = 2 * of_rat r * of_nat e"
    by simp
  have "real_of_int \<lfloor>2 * r * of_nat e\<rfloor> * (2 * pi / of_nat (4 * e)) = pi * of_rat r"
    using e by (simp add: fl)
  then show ?thesis
    by (simp only: CyclotomicField_gen_def cis_power_int)
qed

text \<open>
  Claim C5. \<open>H.root_of_unity(r)\<close> raises \<open>ValueError("not a root of unity in the field")\<close>
  exactly when \<open>n = 2 r e\<close> is not an integer, \<open>e\<close> the cyclotomic order (the exponent
  of \<open>G\<close>); otherwise it returns the \<open>n\<close>-th power of the generator of
  \<open>CyclotomicField(4e)\<close>, passed through the base coercion when one is set and asked
  for, and that power is \<open>exp(i \<pi> r)\<close>.
\<close>

theorem root_of_unity_spec:
  fixes H :: "'g FusionDouble"
  shows
    "(root_of_unity H r bc = Inl (ValueError ''not a root of unity in the field'')
        \<longleftrightarrow> 2 * r * of_nat (self_cyclotomic_order H) \<notin> \<int>)
     \<and> (2 * r * of_nat (self_cyclotomic_order H) \<in> \<int> \<longrightarrow>
          root_of_unity H r bc =
            Inr (coerce H bc (CyclotomicField_gen (4 * self_cyclotomic_order H)
                              powi \<lfloor>2 * r * of_nat (self_cyclotomic_order H)\<rfloor>)))
     \<and> (2 * r * of_nat (self_cyclotomic_order H) \<in> \<int> \<and> 0 < self_cyclotomic_order H \<longrightarrow>
          CyclotomicField_gen (4 * self_cyclotomic_order H)
            powi \<lfloor>2 * r * of_nat (self_cyclotomic_order H)\<rfloor> = cis (pi * of_rat r))
     \<and> (self_basecoer H = None \<or> \<not> bc \<longrightarrow> (\<forall>z. coerce H bc z = z))"
proof -
  have 1: "root_of_unity H r bc = Inl (ValueError ''not a root of unity in the field'')
        \<longleftrightarrow> 2 * r * of_nat (self_cyclotomic_order H) \<notin> \<int>"
    by (auto simp add: root_of_unity_def Let_def elim: Ints_cases)
  have 2: "2 * r * of_nat (self_cyclotomic_order H) \<in> \<int> \<longrightarrow>
          root_of_unity H r bc =
            Inr (coerce H bc (CyclotomicField_gen (4 * self_cyclotomic_order H)
                              powi \<lfloor>2 * r * of_nat (self_cyclotomic_order H)\<rfloor>))"
    by (auto simp add: root_of_unity_def Let_def FusionDouble_field_def elim: Ints_cases)
  have 3: "2 * r * of_nat (self_cyclotomic_order H) \<in> \<int> \<and> 0 < self_cyclotomic_order H \<longrightarrow>
          CyclotomicField_gen (4 * self_cyclotomic_order H)
            powi \<lfloor>2 * r * of_nat (self_cyclotomic_order H)\<rfloor> = cis (pi * of_rat r)"
    using gen_power by blast
  have 4: "self_basecoer H = None \<or> \<not> bc \<longrightarrow> (\<forall>z. coerce H bc z = z)"
    by (auto simp add: coerce_def)
  from 1 2 3 4 show ?thesis by (intro conjI)
qed

theorem root_of_unity_spec_witness:
  "root_of_unity (FusionDouble_init C2) (1/2) True = Inr \<i>
   \<and> root_of_unity (FusionDouble_init C2) (1/3) True
       = Inl (ValueError ''not a root of unity in the field'')"
proof -
  have c: "self_cyclotomic_order (FusionDouble_init C2) = 2"
    "self_basecoer (FusionDouble_init C2) = None"
    by (simp_all add: C2_init)
  have i1: "2 * (1/2) * of_nat 2 = (2::rat)" "(2::rat) \<in> \<int>" by simp_all
  have i2: "2 * (1/3) * of_nat 2 = (4/3::rat)" by simp
  have i3: "(4/3::rat) \<notin> \<int>"
  proof
    assume "(4/3::rat) \<in> \<int>"
    then obtain k :: int where "(4/3::rat) = of_int k" by (rule Ints_cases)
    then have "rat_of_int (3 * k) = rat_of_int 4" by simp
    then have "3 * k = 4" by (simp only: of_int_eq_iff)
    then show False by presburger
  qed
  have "root_of_unity (FusionDouble_init C2) (1/2) True = Inr \<i>"
    using root_of_unity_spec [of "FusionDouble_init C2" "1/2" True] i1
    by (simp add: c of_rat_divide)
  moreover have "root_of_unity (FusionDouble_init C2) (1/3) True
       = Inl (ValueError ''not a root of unity in the field'')"
    using root_of_unity_spec [of "FusionDouble_init C2" "1/3" True] i2 i3
    by (simp add: c)
  ultimately show ?thesis by simp
qed















text \<open>
  Claim C1 on the cyclic group of order two: \<open>s_matrix(unitary=True)\<close> times its
  entrywise conjugate is a quarter of the identity matrix, not the identity matrix.
  The entries \<open>s_ij(x, y, unitary=True)\<close> themselves do form a unitary matrix; \<open>s_matrix\<close>
  divides them once more by \<open>total_q_order()\<close>.
\<close>

theorem s_matrix_unitary_C2:
  "matrix_mult (s_matrix (FusionDouble_init C2) True True)
               (matrix_conjugate (s_matrix (FusionDouble_init C2) True True))
     = [[1/4, 0, 0, 0], [0, 1/4, 0, 0], [0, 0, 1/4, 0], [0, 0, 0, 1/4]]
   \<and> matrix_mult (s_matrix (FusionDouble_init C2) True True)
               (matrix_conjugate (s_matrix (FusionDouble_init C2) True True))
     \<noteq> identity_matrix (self_rank (FusionDouble_init C2))
   \<and> matrix_mult
         (map (\<lambda>y. map (\<lambda>x. s_ij (FusionDouble_init C2) x y True True) [0, 1, 2, 3]) [0, 1, 2, 3])
         (matrix_conjugate
           (map (\<lambda>y. map (\<lambda>x. s_ij (FusionDouble_init C2) x y True True) [0, 1, 2, 3]) [0, 1, 2, 3]))
     = identity_matrix (self_rank (FusionDouble_init C2))"
proof -
  have r: "self_rank (FusionDouble_init C2) = 4"
    by (simp add: C2_init)
  have e: "map (\<lambda>y. map (\<lambda>x. s_ij (FusionDouble_init C2) x y True True) [0, 1, 2, 3]) [0, 1, 2, 3]
     = [[1/2, 1/2, - (1/2), - (1/2)], [1/2, 1/2, 1/2, 1/2], [- (1/2), 1/2, 1/2, - (1/2)], [- (1/2), 1/2, - (1/2), 1/2]]"
    by (simp only: list.map C2_s_ij_values)
  show ?thesis
    unfolding C2_s_matrix r e
    by (simp add: matrix_mult_def matrix_conjugate_def transpose.simps identity_matrix_def upt4)
qed

subsection \<open>Finite Drinfeld modules: the rank check\<close>

lemma check_ok: "rank self = 2 \<Longrightarrow> check_rank_two self = Inr ()"
  by (simp add: check_rank_two_def)

lemma check_fail: "rank self \<noteq> 2 \<Longrightarrow> check_rank_two self = Inl (NotImplementedError ''rank must be two'')"
  by (simp add: check_rank_two_def)

lemma norm_ok:
  assumes "rank self = 2" "wellformed self"
  shows "\<exists>B self'. frobenius_norm self = Inr (B, self') \<and> rank self' = 2 \<and> wellformed self'
           \<and> frobenius_trace_cache self' = frobenius_trace_cache self"
  using assms
  by (cases "frobenius_norm_cache self")
     (simp_all add: frobenius_norm_def check_ok wellformed_def Let_def)

lemma trace_ok:
  assumes "rank self = 2" "wellformed self"
  shows "\<exists>A self'. frobenius_trace self = Inr (A, self') \<and> rank self' = 2 \<and> wellformed self'"
proof (cases "frobenius_trace_cache self")
  case (Some A)
  then show ?thesis using assms by (simp add: frobenius_trace_def check_ok)
next
  case None
  from norm_ok [OF assms] obtain B self' where
    "frobenius_norm self = Inr (B, self')" "rank self' = 2" "wellformed self'" by blast
  then show ?thesis
    using assms None by (simp add: frobenius_trace_def check_ok Let_def wellformed_def)
qed

lemma charpoly_ok:
  assumes "rank self = 2" "wellformed self"
  shows "\<exists>p self'. frobenius_charpoly self = Inr (p, self')"
proof -
  from norm_ok [OF assms] obtain B self' where
    n: "frobenius_norm self = Inr (B, self')" "rank self' = 2" "wellformed self'" by blast
  from trace_ok [OF n(2,3)] obtain A self'' where
    t: "frobenius_trace self' = Inr (A, self'')" by blast
  show ?thesis
    using assms n t by (simp add: frobenius_charpoly_def check_ok)
qed

lemma supersingular_ok:
  assumes "rank self = 2" "wellformed self"
  shows "\<exists>b self'. is_supersingular self = Inr (b, self')"
proof -
  from trace_ok [OF assms] obtain A self' where
    t: "frobenius_trace self = Inr (A, self')" by blast
  show ?thesis
    using assms t by (simp add: is_supersingular_def check_ok)
qed

lemma ordinary_ok:
  assumes "rank self = 2" "wellformed self"
  shows "\<exists>b self'. is_ordinary self = Inr (b, self')"
proof -
  from supersingular_ok [OF assms] obtain b self' where
    t: "is_supersingular self = Inr (b, self')" by blast
  show ?thesis
    using assms t by (simp add: is_ordinary_def check_ok)
qed

text \<open>
  Claim C4, amended. If the rank is not two, each of \<open>frobenius_charpoly\<close>,
  \<open>frobenius_norm\<close>, \<open>frobenius_trace\<close>, \<open>is_ordinary\<close> and \<open>is_supersingular\<close> raises
  \<open>NotImplementedError("rank must be two")\<close> and returns nothing; if the rank is two
  (and the module is well formed, so that no division by zero occurs), each of them
  returns. \<open>frobenius_endomorphism\<close> does not look at the rank: it returns the Frobenius
  endomorphism for every rank.
\<close>

theorem rank_two_required:
  fixes self :: "('k, 'a::field, 'o, 'm) FiniteDrinfeldModule"
  shows
    "(rank self \<noteq> 2 \<longrightarrow>
        frobenius_charpoly self = Inl (NotImplementedError ''rank must be two'')
        \<and> frobenius_norm self = Inl (NotImplementedError ''rank must be two'')
        \<and> frobenius_trace self = Inl (NotImplementedError ''rank must be two'')
        \<and> is_ordinary self = Inl (NotImplementedError ''rank must be two'')
        \<and> is_supersingular self = Inl (NotImplementedError ''rank must be two''))
     \<and> (rank self = 2 \<and> wellformed self \<longrightarrow>
        (\<exists>p self'. frobenius_charpoly self = Inr (p, self'))
        \<and> (\<exists>B self'. frobenius_norm self = Inr (B, self'))
        \<and> (\<exists>A self'. frobenius_trace self = Inr (A, self'))
        \<and> (\<exists>b self'. is_ordinary self = Inr (b, self'))
        \<and> (\<exists>b self'. is_supersingular self = Inr (b, self')))
     \<and> frobenius_endomorphism self
          = Inr (Hom_call self (ore_variable_power self (degree_over_Fq self)))"
proof -
  have 1: "rank self \<noteq> 2 \<longrightarrow>
        frobenius_charpoly self = Inl (NotImplementedError ''rank must be two'')
        \<and> frobenius_norm self = Inl (NotImplementedError ''rank must be two'')
        \<and> frobenius_trace self = Inl (NotImplementedError ''rank must be two'')
        \<and> is_ordinary self = Inl (NotImplementedError ''rank must be two'')
        \<and> is_supersingular self = Inl (NotImplementedError ''rank must be two'')"
    by (simp add: frobenius_charpoly_def frobenius_norm_def frobenius_trace_def is_ordinary_def
        is_supersingular_def check_fail)
  have 2: "rank self = 2 \<and> wellformed self \<longrightarrow>
        (\<exists>p self'. frobenius_charpoly self = Inr (p, self'))
        \<and> (\<exists>B self'. frobenius_norm self = Inr (B, self'))
        \<and> (\<exists>A self'. frobenius_trace self = Inr (A, self'))
        \<and> (\<exists>b self'. is_ordinary self = Inr (b, self'))
        \<and> (\<exists>b self'. is_supersingular self = Inr (b, self'))"
    using charpoly_ok [of self] norm_ok [of self] trace_ok [of self] ordinary_ok [of self]
      supersingular_ok [of self]
    by blast
  have 3: "frobenius_endomorphism self
          = Inr (Hom_call self (ore_variable_power self (degree_over_Fq self)))"
    by (simp add: frobenius_endomorphism_def)
  from 1 2 3 show ?thesis by (intro conjI)
qed

lemma example_module_fields:
  "rank (example_module r) = r" "wellformed (example_module 2)"
  "Hom_call (example_module r) (ore_variable_power (example_module r) (degree_over_Fq (example_module r))) = 2"
  by (simp_all add: example_module_def wellformed_def)

theorem rank_two_required_witness:
  "frobenius_norm (example_module 3) = Inl (NotImplementedError ''rank must be two'')
   \<and> is_ordinary (example_module 1) = Inl (NotImplementedError ''rank must be two'')
   \<and> (\<exists>p self'. frobenius_charpoly (example_module 2) = Inr (p, self'))
   \<and> (\<exists>b self'. is_supersingular (example_module 2) = Inr (b, self'))
   \<and> frobenius_endomorphism (example_module 2) = Inr 2"
  using rank_two_required [of "example_module 3"] rank_two_required [of "example_module 1"]
    rank_two_required [of "example_module 2"]
  by (simp add: example_module_fields)

text \<open>
  Claim C4, as stated, asks \<open>frobenius_endomorphism\<close> to raise when the rank is not two.
  On a module of rank three over a quadratic extension of \<open>Fq\<close>, such as
  \<open>DrinfeldModule(FqX, [z, 0, 0, 1])\<close>, it returns the morphism defined by \<open>t**2\<close>.
\<close>

theorem frobenius_endomorphism_counterexample:
  "rank (example_module 3) \<noteq> 2
   \<and> frobenius_endomorphism (example_module 3) = Inr 2
   \<and> frobenius_endomorphism (example_module 3) \<noteq> Inl (NotImplementedError ''rank must be two'')"
  by (simp add: frobenius_endomorphism_def example_module_def)

subsection \<open>Coefficient forms: regular functions\<close>

lemma length_internal:
  "length (coefficient_forms_internal self a) = nat (degree a * modform_rank self)"
  by (simp add: coefficient_forms_internal_def Let_def)

lemma nth_internal:
  assumes "1 \<le> i" "i \<le> degree a * modform_rank self"
  shows "coefficient_forms_internal self a ! nat (i - 1)
         = subs self (ore_coefficient self (universal_module_at self a) i)
                (\<lambda>j. generator_coefficient_form self (int j + 1))"
  using assms by (simp add: coefficient_forms_internal_def Let_def)

text \<open>The sum of the code, started at any index and any value.\<close>

lemma foldl_enumerate:
  fixes M :: "('x, 'c, 'o::ring_1, 'p, 'f) DrinfeldModularForms"
  shows "foldl (\<lambda>acc (idx, c). acc + ore_constant M c * ore_gen M ^ idx) z (enumerate n a)
         = z + universal_drinfeld_module M a * ore_gen M ^ n"
proof (induction a arbitrary: z n)
  case Nil
  show ?case by simp
next
  case (Cons c a)
  have "foldl (\<lambda>acc (idx, c). acc + ore_constant M c * ore_gen M ^ idx) z (enumerate n (c # a))
        = (z + ore_constant M c * ore_gen M ^ n)
          + universal_drinfeld_module M a * ore_gen M ^ Suc n"
    by (simp add: Cons.IH)
  also have "\<dots> = z + (ore_constant M c + universal_drinfeld_module M a * ore_gen M)
                       * ore_gen M ^ n"
    by (simp add: distrib_right mult.assoc add.assoc)
  finally show ?case by simp
qed

lemma universal_module_at_refines:
  fixes M :: "('x, 'c, 'o::ring_1, 'p, 'f) DrinfeldModularForms"
  shows "universal_module_at M a = universal_drinfeld_module M a"
  by (simp add: universal_module_at_def foldl_enumerate)

text \<open>The universal Drinfeld module is a homomorphism of algebras.\<close>

lemma universal_add:
  fixes M :: "('x, 'c::comm_ring_1, 'o::ring_1, 'p, 'f) DrinfeldModularForms"
  assumes "is_constant_embedding M"
  shows "universal_drinfeld_module M (poly_add p q)
         = universal_drinfeld_module M p + universal_drinfeld_module M q"
proof (induction p q rule: poly_add.induct)
  case (3 a p b q)
  have "ore_constant M (a + b) = ore_constant M a + ore_constant M b"
    using assms by (simp add: is_constant_embedding_def)
  then show ?case by (simp add: 3 distrib_right add_ac)
qed simp_all

lemma universal_scale:
  fixes M :: "('x, 'c::comm_ring_1, 'o::ring_1, 'p, 'f) DrinfeldModularForms"
  assumes "is_constant_embedding M"
  shows "universal_drinfeld_module M (map (\<lambda>b. a * b) q)
         = ore_constant M a * universal_drinfeld_module M q"
proof (induction q)
  case Nil
  show ?case by simp
next
  case (Cons b q)
  have "ore_constant M (a * b) = ore_constant M a * ore_constant M b"
    using assms by (simp add: is_constant_embedding_def)
  then show ?case by (simp add: Cons distrib_left mult.assoc)
qed

lemma universal_commute:
  fixes M :: "('x, 'c::comm_ring_1, 'o::ring_1, 'p, 'f) DrinfeldModularForms"
  assumes "is_constant_embedding M"
  shows "universal_drinfeld_module M q * ore_gen M = ore_gen M * universal_drinfeld_module M q"
proof (induction q)
  case Nil
  show ?case by simp
next
  case (Cons b q)
  have c: "ore_constant M b * ore_gen M = ore_gen M * ore_constant M b"
    using assms by (simp add: is_constant_embedding_def)
  have "universal_drinfeld_module M (b # q) * ore_gen M
        = ore_constant M b * ore_gen M + (universal_drinfeld_module M q * ore_gen M) * ore_gen M"
    by (simp add: distrib_right)
  also have "\<dots> = ore_gen M * ore_constant M b
                   + (ore_gen M * universal_drinfeld_module M q) * ore_gen M"
    by (simp only: c Cons)
  also have "\<dots> = ore_gen M * universal_drinfeld_module M (b # q)"
    by (simp add: distrib_left mult.assoc)
  finally show ?case .
qed

lemma universal_mult:
  fixes M :: "('x, 'c::comm_ring_1, 'o::ring_1, 'p, 'f) DrinfeldModularForms"
  assumes "is_constant_embedding M"
  shows "universal_drinfeld_module M (poly_mult p q)
         = universal_drinfeld_module M p * universal_drinfeld_module M q"
proof (induction p)
  case Nil
  show ?case by simp
next
  case (Cons a p)
  let ?U = "universal_drinfeld_module M"
  have z: "ore_constant M 0 = 0"
    using assms by (simp add: is_constant_embedding_def)
  have "?U (poly_mult (a # p) q) = ore_constant M a * ?U q + (?U p * ?U q) * ore_gen M"
    by (simp add: universal_add [OF assms] universal_scale [OF assms] z Cons)
  also have "\<dots> = ore_constant M a * ?U q + ?U p * (ore_gen M * ?U q)"
    by (simp only: mult.assoc universal_commute [OF assms])
  also have "\<dots> = ?U (a # p) * ?U q"
    by (simp add: distrib_right mult.assoc)
  finally show ?case .
qed

lemma universal_generators:
  fixes M :: "('x, 'c::comm_ring_1, 'o::ring_1, 'p, 'f) DrinfeldModularForms"
  assumes "is_constant_embedding M"
  shows "universal_drinfeld_module M [0, 1] = ore_gen M"
    and "universal_drinfeld_module M [c] = ore_constant M c"
  using assms by (simp_all add: is_constant_embedding_def)

lemma example_forms_embedding: "is_constant_embedding example_forms"
  by (simp add: is_constant_embedding_def example_forms_def)

text \<open>
  Claim C6. If the input \<open>a\<close> is an element of the base field whose denominator is not
  one, \<open>coefficient_form(i, a)\<close> and \<open>coefficient_forms(a)\<close> raise a \<open>ValueError\<close> saying
  that the input should be in the ring of regular functions, and return nothing. If
  the denominator is one and \<open>1 \<le> i \<le> deg(a) rank\<close>, \<open>coefficient_form(i, a)\<close> returns the
  \<open>i\<close>-th coefficient form of the universal Drinfeld module at \<open>a\<close>: the coefficient of
  index \<open>i\<close> of the universal Drinfeld module at the numerator of \<open>a\<close>, in which the
  variable \<open>g\<^sub>j\<close> is replaced by the generator \<open>gen(j - 1)\<close> of the ring, or by its power
  \<open>q - 1\<close> if the ring has a type and \<open>j\<close> is the rank. It is also the entry \<open>i - 1\<close> of the
  list of \<open>deg(a) rank\<close> forms that \<open>coefficient_forms(a)\<close> returns. The universal
  Drinfeld module maps \<open>T\<close> to \<open>ore_gen\<close>, a constant to itself, sums to sums and
  products to products.
\<close>

theorem regular_functions_required:
  fixes M :: "('x, 'c::comm_ring_1, 'o::ring_1, 'p, 'f) DrinfeldModularForms"
  shows
    "(base_ring_call M x = Inr a \<and> \<not> is_one (denominator a) \<longrightarrow>
        coefficient_form M i (Some x)
          = Inl (ValueError ''a should be in the ring of regular functions'')
        \<and> coefficient_forms M (Some x)
          = Inl (ValueError ''the input should be in the ring of regular functions''))
     \<and> (base_ring_call M x = Inr a \<and> is_one (denominator a)
          \<and> 1 \<le> i \<and> i \<le> degree (numerator a) * modform_rank M \<longrightarrow>
        coefficient_form M i (Some x)
          = Inr (subs M (ore_coefficient M (universal_drinfeld_module M (numerator a)) i)
                   (\<lambda>j. if modform_has_type M \<and> int j + 1 = modform_rank M
                        then form_power M (ring_gen M (int j)) (base_ring_cardinality M - 1)
                        else ring_gen M (int j)))
        \<and> (\<exists>fs. coefficient_forms M (Some x) = Inr fs
                 \<and> int (length fs) = degree (numerator a) * modform_rank M
                 \<and> Inr (fs ! nat (i - 1)) = coefficient_form M i (Some x)))
     \<and> (is_constant_embedding M \<longrightarrow>
          universal_drinfeld_module M [0, 1] = ore_gen M
          \<and> (\<forall>c. universal_drinfeld_module M [c] = ore_constant M c)
          \<and> (\<forall>p q. universal_drinfeld_module M (poly_add p q)
                     = universal_drinfeld_module M p + universal_drinfeld_module M q)
          \<and> (\<forall>p q. universal_drinfeld_module M (poly_mult p q)
                     = universal_drinfeld_module M p * universal_drinfeld_module M q))"
proof -
  have 1: "base_ring_call M x = Inr a \<and> \<not> is_one (denominator a) \<longrightarrow>
        coefficient_form M i (Some x)
          = Inl (ValueError ''a should be in the ring of regular functions'')
        \<and> coefficient_forms M (Some x)
          = Inl (ValueError ''the input should be in the ring of regular functions'')"
    by (simp add: coefficient_form_def coefficient_forms_def)
  have g: "(\<lambda>j. generator_coefficient_form M (int j + 1))
           = (\<lambda>j. if modform_has_type M \<and> int j + 1 = modform_rank M
                   then form_power M (ring_gen M (int j)) (base_ring_cardinality M - 1)
                   else ring_gen M (int j))"
  proof (rule ext)
    fix j
    show "generator_coefficient_form M (int j + 1)
          = (if modform_has_type M \<and> int j + 1 = modform_rank M
             then form_power M (ring_gen M (int j)) (base_ring_cardinality M - 1)
             else ring_gen M (int j))"
    proof (cases "modform_has_type M \<and> modform_rank M = int j + 1")
      case True
      then show ?thesis by (simp add: generator_coefficient_form_def Let_def)
    next
      case False
      then show ?thesis by (auto simp add: generator_coefficient_form_def Let_def)
    qed
  qed
  have 2: "base_ring_call M x = Inr a \<and> is_one (denominator a)
          \<and> 1 \<le> i \<and> i \<le> degree (numerator a) * modform_rank M \<longrightarrow>
        coefficient_form M i (Some x)
          = Inr (subs M (ore_coefficient M (universal_drinfeld_module M (numerator a)) i)
                   (\<lambda>j. if modform_has_type M \<and> int j + 1 = modform_rank M
                        then form_power M (ring_gen M (int j)) (base_ring_cardinality M - 1)
                        else ring_gen M (int j)))
        \<and> (\<exists>fs. coefficient_forms M (Some x) = Inr fs
                 \<and> int (length fs) = degree (numerator a) * modform_rank M
                 \<and> Inr (fs ! nat (i - 1)) = coefficient_form M i (Some x))"
    unfolding g [symmetric] universal_module_at_refines [symmetric]
    by (simp add: coefficient_form_def coefficient_forms_def Let_def nth_internal length_internal)
  have 3: "is_constant_embedding M \<longrightarrow>
          universal_drinfeld_module M [0, 1] = ore_gen M
          \<and> (\<forall>c. universal_drinfeld_module M [c] = ore_constant M c)
          \<and> (\<forall>p q. universal_drinfeld_module M (poly_add p q)
                     = universal_drinfeld_module M p + universal_drinfeld_module M q)
          \<and> (\<forall>p q. universal_drinfeld_module M (poly_mult p q)
                     = universal_drinfeld_module M p * universal_drinfeld_module M q)"
    using universal_generators [of M] universal_add [of M] universal_mult [of M]
    by (intro impI conjI allI)
  from 1 2 3 show ?thesis by (intro conjI)
qed

theorem regular_functions_required_witness:
  "coefficient_form example_forms 1 (Some \<lparr>numerator = [1], denominator = [0, 1]\<rparr>)
     = Inl (ValueError ''a should be in the ring of regular functions'')
   \<and> coefficient_forms example_forms (Some \<lparr>numerator = [1], denominator = [0, 1]\<rparr>)
     = Inl (ValueError ''the input should be in the ring of regular functions'')
   \<and> coefficient_form example_forms 3 (Some \<lparr>numerator = [0, 0, 1], denominator = [1]\<rparr>) = Inr 2
   \<and> is_constant_embedding example_forms
   \<and> universal_drinfeld_module example_forms (poly_mult [0, 1] [0, 1]) = 12100"
proof -
  let ?A = "\<lparr>numerator = [0, 0, 1], denominator = [1]\<rparr> :: int FractionFieldElement"
  have c: "base_ring_call example_forms x = Inr x" "modform_rank example_forms = 2"
    "ore_gen example_forms = 110" for x
    by (simp_all add: example_forms_def)
  have u: "universal_drinfeld_module example_forms [0, 0, 1] = 12100"
    by (simp add: example_forms_def)
  have s: "subs example_forms (ore_coefficient example_forms 12100 3) g = 2" for g
    by (simp add: example_forms_def)
  have 1: "coefficient_form example_forms 1 (Some \<lparr>numerator = [1], denominator = [0, 1]\<rparr>)
     = Inl (ValueError ''a should be in the ring of regular functions'')
   \<and> coefficient_forms example_forms (Some \<lparr>numerator = [1], denominator = [0, 1]\<rparr>)
     = Inl (ValueError ''the input should be in the ring of regular functions'')"
    using regular_functions_required
      [of example_forms "\<lparr>numerator = [1], denominator = [0, 1]\<rparr>"
          "\<lparr>numerator = [1], denominator = [0, 1]\<rparr>" 1]
    by (simp add: c is_one_def)
  note t = regular_functions_required [of example_forms ?A ?A 3]
  have prem: "base_ring_call example_forms ?A = Inr ?A \<and> is_one (denominator ?A)
          \<and> 1 \<le> (3::int) \<and> 3 \<le> degree (numerator ?A) * modform_rank example_forms"
    by (simp add: c is_one_def degree_def)
  have 2: "coefficient_form example_forms 3 (Some ?A) = Inr 2"
    using conjunct1 [OF mp [OF conjunct1 [OF conjunct2 [OF t]] prem]]
    by (simp only: FractionFieldElement.select_convs u s)
  note h = mp [OF conjunct2 [OF conjunct2 [OF t]] example_forms_embedding]
  have "universal_drinfeld_module example_forms (poly_mult [0, 1] [0, 1])
        = universal_drinfeld_module example_forms [0, 1]
          * universal_drinfeld_module example_forms [0, 1]"
    using h by (simp only:)
  also have "universal_drinfeld_module example_forms [0, 1] = 110"
    using h by (simp only: c)
  finally have 3: "universal_drinfeld_module example_forms (poly_mult [0, 1] [0, 1]) = 12100"
    by simp
  from 1 2 example_forms_embedding 3 show ?thesis by (intro conjI) simp_all
qed

end
